theory Spec2Isabelle
  imports Main "HOL-Library.Char_ord" "HOL-Library.Sublist"
begin

section \<open>Regular expressions used by the deployer\<close>

text \<open>
  \<^verbatim>\<open>src/lib/deploy.js\<close> uses three JavaScript regular expressions: the project-name
  pattern, the env-key pattern and the git remote pattern. They are transcribed as data
  and run by one small backtracking matcher that follows the priorities of the
  JavaScript engine: a greedy repetition tries the longest run first, a lazy one the
  shortest, an optional literal is tried before it is skipped, and an unanchored search
  tries the start positions from left to right.
\<close>

datatype cls = Cls bool "(char \<times> char) list"
  \<comment> \<open>a character class: negated or not, and its ranges (a single character is a
      one-element range)\<close>

fun in_cls :: "cls \<Rightarrow> char \<Rightarrow> bool" where
  "in_cls (Cls neg rs) c = (neg \<noteq> list_ex (\<lambda>(lo, hi). lo \<le> c \<and> c \<le> hi) rs)"

datatype mark = GStart nat | GEnd nat

datatype atom =
    Bol                 \<comment> \<open>\<^verbatim>\<open>^\<close>\<close>
  | Eol                 \<comment> \<open>\<^verbatim>\<open>$\<close> (no multiline flag: end of input only)\<close>
  | One cls             \<comment> \<open>one character of a class\<close>
  | Star cls bool       \<comment> \<open>\<^verbatim>\<open>[..]*\<close> when the flag is set, \<^verbatim>\<open>[..]*?\<close> otherwise\<close>
  | Opt string          \<comment> \<open>\<^verbatim>\<open>(lit)?\<close>\<close>
  | Open nat            \<comment> \<open>start of capture group\<close>
  | Close nat           \<comment> \<open>end of capture group\<close>

type_synonym marks = "(mark \<times> nat) list"

fun rmatch :: "atom list \<Rightarrow> string \<Rightarrow> nat \<Rightarrow> marks \<Rightarrow> marks option" where
  "rmatch [] s pos m = Some m"
| "rmatch (Bol # as) s pos m = (if pos = 0 then rmatch as s pos m else None)"
| "rmatch (Eol # as) s pos m = (if s = [] then rmatch as s pos m else None)"
| "rmatch (Open k # as) s pos m = rmatch as s pos ((GStart k, pos) # m)"
| "rmatch (Close k # as) s pos m = rmatch as s pos ((GEnd k, pos) # m)"
| "rmatch (One c # as) [] pos m = None"
| "rmatch (One c # as) (x # xs) pos m =
     (if in_cls c x then rmatch as xs (Suc pos) m else None)"
| "rmatch (Star c greedy # as) [] pos m = rmatch as [] pos m"
| "rmatch (Star c greedy # as) (x # xs) pos m =
     (if greedy then
        (if in_cls c x then
           (case rmatch (Star c greedy # as) xs (Suc pos) m of
              Some r \<Rightarrow> Some r
            | None \<Rightarrow> rmatch as (x # xs) pos m)
         else rmatch as (x # xs) pos m)
      else
        (case rmatch as (x # xs) pos m of
           Some r \<Rightarrow> Some r
         | None \<Rightarrow>
             if in_cls c x then rmatch (Star c greedy # as) xs (Suc pos) m else None))"
| "rmatch (Opt lit # as) s pos m =
     (if prefix lit s then
        (case rmatch as (drop (length lit) s) (pos + length lit) m of
           Some r \<Rightarrow> Some r
         | None \<Rightarrow> rmatch as s pos m)
      else rmatch as s pos m)"

fun rsearch :: "atom list \<Rightarrow> string \<Rightarrow> nat \<Rightarrow> marks option" where
  "rsearch as [] pos = rmatch as [] pos []"
| "rsearch as (x # xs) pos =
     (case rmatch as (x # xs) pos [] of
        Some m \<Rightarrow> Some m
      | None \<Rightarrow> rsearch as xs (Suc pos))"

definition regex_exec :: "atom list \<Rightarrow> string \<Rightarrow> marks option" where
  "regex_exec re s = rsearch re s 0"

definition regex_test :: "atom list \<Rightarrow> string \<Rightarrow> bool" where
  "regex_test re s = (regex_exec re s \<noteq> None)"

definition capture :: "string \<Rightarrow> marks \<Rightarrow> nat \<Rightarrow> string" where
  "capture s m k =
     (case (map_of m (GStart k), map_of m (GEnd k)) of
        (Some b, Some e) \<Rightarrow> take (e - b) (drop b s)
      | _ \<Rightarrow> [])"

text \<open>\<^verbatim>\<open>/^[a-zA-Z0-9._-]+$/\<close>\<close>

definition project_name_class :: cls where
  "project_name_class =
     Cls False [(CHR ''a'', CHR ''z''), (CHR ''A'', CHR ''Z''), (CHR ''0'', CHR ''9''),
                (CHR ''.'', CHR ''.''), (CHR ''_'', CHR ''_''), (CHR ''-'', CHR ''-'')]"

definition project_name_re :: "atom list" where
  "project_name_re = [Bol, One project_name_class, Star project_name_class True, Eol]"

text \<open>\<^verbatim>\<open>/^[a-zA-Z_][a-zA-Z0-9_]*$/\<close>\<close>

definition env_key_head :: cls where
  "env_key_head = Cls False [(CHR ''a'', CHR ''z''), (CHR ''A'', CHR ''Z''), (CHR ''_'', CHR ''_'')]"

definition env_key_tail :: cls where
  "env_key_tail =
     Cls False [(CHR ''a'', CHR ''z''), (CHR ''A'', CHR ''Z''), (CHR ''0'', CHR ''9''),
                (CHR ''_'', CHR ''_'')]"

definition env_key_re :: "atom list" where
  "env_key_re = [Bol, One env_key_head, Star env_key_tail True, Eol]"

text \<open>\<^verbatim>\<open>/[:/]([^/]+)\/([^/]+?)(\.git)?$/\<close>; the third group is never read by the code.\<close>

definition not_slash :: cls where
  "not_slash = Cls True [(CHR ''/'', CHR ''/'')]"

definition colon_or_slash :: cls where
  "colon_or_slash = Cls False [(CHR '':'', CHR '':''), (CHR ''/'', CHR ''/'')]"

definition slash_only :: cls where
  "slash_only = Cls False [(CHR ''/'', CHR ''/'')]"

definition git_url_re :: "atom list" where
  "git_url_re =
     [One colon_or_slash,
      Open 1, One not_slash, Star not_slash True, Close 1,
      One slash_only,
      Open 2, One not_slash, Star not_slash False, Close 2,
      Opt ''.git'', Eol]"


section \<open>Local helpers of \<^verbatim>\<open>deploy.js\<close>\<close>

text \<open>
  \<^verbatim>\<open>String.prototype.trim\<close> on byte strings: the six ASCII blanks. JavaScript also strips
  the blanks beyond ASCII (U+00A0, U+FEFF, U+2028 and others), which a byte string does
  not hold as single characters; statements about the resolver are relative to the
  trimmed string.
\<close>

definition js_space :: "char \<Rightarrow> bool" where
  "js_space c = (c \<in> set [CHR 0x09, CHR 0x0A, CHR 0x0B, CHR 0x0C, CHR 0x0D, CHR '' ''])"

definition trim :: "string \<Rightarrow> string" where
  "trim s = rev (dropWhile js_space (rev (dropWhile js_space s)))"

text \<open>
  \<^verbatim>\<open>getGitRepoInfo\<close>: the argument is what \<^verbatim>\<open>git config --get remote.origin.url\<close>
  printed, or \<open>None\<close> when \<^verbatim>\<open>execSync\<close> threw (the command failed).
\<close>

fun getGitRepoInfo :: "string option \<Rightarrow> string option" where
  "getGitRepoInfo None = None"
| "getGitRepoInfo (Some out) =
     (let remoteUrl = trim out in
      case regex_exec git_url_re remoteUrl of
        Some m \<Rightarrow> Some (capture remoteUrl m 1 @ ''/'' @ capture remoteUrl m 2)
      | None \<Rightarrow> None)"

definition isValidProjectName :: "string \<Rightarrow> bool" where
  "isValidProjectName name = regex_test project_name_re name"

definition squote :: char where "squote = CHR 0x27"
definition backslash :: char where "backslash = CHR 0x5C"
definition newline :: char where "newline = CHR 0x0A"

text \<open>\<^verbatim>\<open>s.replace(/c/g, rep)\<close> for a one-character pattern.\<close>

fun replace_global :: "char \<Rightarrow> string \<Rightarrow> string \<Rightarrow> string" where
  "replace_global c rep [] = []"
| "replace_global c rep (x # xs) =
     (if x = c then rep @ replace_global c rep xs else x # replace_global c rep xs)"

definition escapeShellArg :: "string \<Rightarrow> string" where
  "escapeShellArg arg =
     [squote] @ replace_global squote [squote, backslash, squote, squote] arg @ [squote]"

definition projectPathOf :: "string \<Rightarrow> string" where
  "projectPathOf project = ''/var/www/'' @ project"

definition lower_char :: "char \<Rightarrow> char" where
  "lower_char c =
     (if CHR ''A'' \<le> c \<and> c \<le> CHR ''Z'' then char_of (of_char c + (32::nat)) else c)"

definition toLowerCase :: "string \<Rightarrow> string" where
  "toLowerCase s = map lower_char s"

fun str_includes :: "string \<Rightarrow> string \<Rightarrow> bool" where
  "str_includes [] t = (t = [])"
| "str_includes (x # xs) t = (prefix t (x # xs) \<or> str_includes xs t)"

text \<open>JavaScript truthiness of an optional string: \<^verbatim>\<open>undefined\<close> and \<^verbatim>\<open>""\<close> are falsy.\<close>

fun truthy :: "string option \<Rightarrow> bool" where
  "truthy None = False"
| "truthy (Some s) = (s \<noteq> [])"


section \<open>The remote shell\<close>

subsection \<open>Quoting: how the shell reads a command line made of literal words\<close>

text \<open>
  The quoting rules of the POSIX shell command language, for command lines built from
  literal words: inside single quotes every character stands for itself up to the next
  single quote; outside quotes a backslash makes the next character literal (a
  backslash-newline pair is removed); unquoted blanks end a word. An unquoted character
  with a meaning of its own to the shell (an operator, an expansion, a double quote, a
  pattern or comment character) puts the line outside this fragment, and so does an
  unterminated quote: the result is \<open>None\<close>.

  The flag says whether the reader is inside single quotes, the optional string is the
  word read so far (\<open>None\<close> between words).
\<close>

definition sh_special :: "char list" where
  \<open>sh_special = ''|&;<>()$`"*?[#~%!{}='' @ [CHR 0x0A]\<close>

definition sh_blank :: "char \<Rightarrow> bool" where
  "sh_blank c = (c = CHR '' '' \<or> c = CHR 0x09)"

fun word_so_far :: "string option \<Rightarrow> string" where
  "word_so_far None = []"
| "word_so_far (Some w) = w"

fun end_word :: "string option \<Rightarrow> string list option \<Rightarrow> string list option" where
  "end_word None ws = ws"
| "end_word (Some w) ws = map_option (Cons w) ws"

fun sh_lex :: "bool \<Rightarrow> string option \<Rightarrow> string \<Rightarrow> string list option" where
  "sh_lex True cur [] = None"
| "sh_lex True cur (c # cs) =
     (if c = squote then sh_lex False cur cs
      else sh_lex True (Some (word_so_far cur @ [c])) cs)"
| "sh_lex False cur [] = end_word cur (Some [])"
| "sh_lex False cur [c] =
     (if c = squote \<or> c = backslash \<or> c \<in> set sh_special then None
      else if sh_blank c then end_word cur (Some [])
      else Some [word_so_far cur @ [c]])"
| "sh_lex False cur (c # d # ds) =
     (if c = squote then sh_lex True (Some (word_so_far cur)) (d # ds)
      else if c = backslash then
        (if d = newline then sh_lex False cur ds
         else sh_lex False (Some (word_so_far cur @ [d])) ds)
      else if sh_blank c then end_word cur (sh_lex False None (d # ds))
      else if c \<in> set sh_special then None
      else sh_lex False (Some (word_so_far cur @ [c])) (d # ds))"

definition sh_words :: "string \<Rightarrow> string list option" where
  "sh_words line = sh_lex False None line"

subsection \<open>Text files\<close>

text \<open>
  A remote file is its content, newlines included. \<open>lines_of\<close> is how \<^verbatim>\<open>grep\<close> reads
  it: every newline ends a line, and a last line without a newline counts as well.
\<close>

fun split_lines :: "string \<Rightarrow> string \<Rightarrow> string list" where
  "split_lines acc [] = (if acc = [] then [] else [acc])"
| "split_lines acc (c # cs) =
     (if c = newline then acc # split_lines [] cs else split_lines (acc @ [c]) cs)"

definition lines_of :: "string \<Rightarrow> string list" where
  "lines_of content = split_lines [] content"

definition unlines :: "string list \<Rightarrow> string" where
  "unlines ls = concat (map (\<lambda>l. l @ [newline]) ls)"

type_synonym fs = "string \<Rightarrow> string option"

subsection \<open>The commands the deployer sends\<close>

text \<open>
  The deployer builds its remote commands as strings. The ones that touch the \<^verbatim>\<open>.env\<close>
  file are kept structured here, \<open>render\<close> gives the string that is sent, and \<open>exec\<close>
  is what the remote shell does with it. Every other command (\<^verbatim>\<open>git\<close>, \<^verbatim>\<open>npx\<close>,
  \<^verbatim>\<open>yarn\<close>, \<^verbatim>\<open>pm2\<close>, \<^verbatim>\<open>sudo\<close>) is \<open>Opaque\<close>: its exit status and output are given by
  the host, and it leaves the files of this model alone.

  \<^verbatim>\<open>grep "^KEY=" file\<close> selects the lines that start with \<^verbatim>\<open>KEY=\<close>; the key has
  passed the env-key pattern by then, so it has no character special to the shell or to
  \<^verbatim>\<open>grep\<close>. Its exit status is 0 when a line was selected, 1 when none was, 2 when
  the file cannot be read. \<^verbatim>\<open>echo\<close> prints its argument and a newline (the \<^verbatim>\<open>bash\<close>
  builtin: no backslash escapes). A redirection opens its file before the command runs.
  Directories are not modelled: the parent of every path exists. The files are text
  files: \<^verbatim>\<open>grep\<close> treats a file with a NUL byte or an invalid byte sequence as binary,
  which is outside this model.
\<close>

datatype redir = NoRedir | Truncate string | AppendTo string

datatype simple =
    Grep bool string string    \<comment> \<open>\<^verbatim>\<open>-v\<close> given, key, file\<close>
  | Echo string                \<comment> \<open>the argument, before it is escaped\<close>
  | Mv string string
  | Opaque string

datatype shell_cmd = Simple simple redir | AndIf shell_cmd shell_cmd

fun render_simple :: "simple \<Rightarrow> string" where
  "render_simple (Grep neg k file) =
     ''grep '' @ (if neg then ''-v '' else []) @ [CHR 0x22] @ ''^'' @ k @ ''='' @ [CHR 0x22]
       @ '' '' @ file"
| "render_simple (Echo a) = ''echo '' @ escapeShellArg a"
| "render_simple (Mv a b) = ''mv '' @ a @ '' '' @ b"
| "render_simple (Opaque t) = t"

fun render_redir :: "redir \<Rightarrow> string" where
  "render_redir NoRedir = []"
| "render_redir (Truncate p) = '' > '' @ p"
| "render_redir (AppendTo p) = '' >> '' @ p"

fun render :: "shell_cmd \<Rightarrow> string" where
  "render (Simple c rd) = render_simple c @ render_redir rd"
| "render (AndIf a b) = render a @ '' && '' @ render b"

type_synonym host = "string \<Rightarrow> nat \<times> string"
  \<comment> \<open>exit status and standard output of an opaque command\<close>

fun content_of :: "fs \<Rightarrow> string \<Rightarrow> string" where
  "content_of f p = (case f p of None \<Rightarrow> [] | Some c \<Rightarrow> c)"

fun run_simple :: "host \<Rightarrow> simple \<Rightarrow> fs \<Rightarrow> nat \<times> string \<times> fs" where
  "run_simple h (Grep neg k file) f =
     (case f file of
        None \<Rightarrow> (2, [], f)
      | Some content \<Rightarrow>
          (let sel = filter (\<lambda>l. prefix (k @ ''='') l \<noteq> neg) (lines_of content)
           in (if sel = [] then 1 else 0, unlines sel, f)))"
| "run_simple h (Echo a) f = (0, a @ [newline], f)"
| "run_simple h (Mv a b) f =
     (case f a of
        None \<Rightarrow> (1, [], f)
      | Some content \<Rightarrow> if a = b then (1, [], f) else (0, [], f(b \<mapsto> content, a := None)))"
| "run_simple h (Opaque t) f = (fst (h t), snd (h t), f)"

fun exec :: "host \<Rightarrow> shell_cmd \<Rightarrow> fs \<Rightarrow> nat \<times> string \<times> fs" where
  "exec h (Simple c NoRedir) f = run_simple h c f"
| "exec h (Simple c (Truncate p)) f =
     (case run_simple h c (f(p \<mapsto> [])) of
        (st, out, f') \<Rightarrow> (st, [], f'(p \<mapsto> out)))"
| "exec h (Simple c (AppendTo p)) f =
     (case run_simple h c (f(p \<mapsto> content_of f p)) of
        (st, out, f') \<Rightarrow> (st, [], f'(p \<mapsto> content_of f' p @ out)))"
| "exec h (AndIf a b) f =
     (case exec h a f of
        (st, out, f') \<Rightarrow>
          if st = 0 then (case exec h b f' of (st', out', f'') \<Rightarrow> (st', out @ out', f''))
          else (st, out, f'))"


section \<open>The session: \<^verbatim>\<open>src/lib/ssh.js\<close>\<close>

text \<open>
  What a run leaves behind is a trace: connection attempts, the commands submitted
  (with their working directory and exit status), the release of the session, and the
  lines the deployer prints that say which way it went. Colours, spinners and the echo
  of a command's output are left out.
\<close>

datatype message =
    InvalidEnvKey string
  | ProjectNotSpecified
  | InvalidProjectName string
  | MissingCredentials
  | FailedToConnect
  | FailedToExecute string
  | DeploymentFailed
  | InteractiveModeEnabled
  | HandlingFrameworkTasks string
  | UpdatedEnv string
  | AppendedEnv string
  | AiSummary

datatype event =
    Connect bool
  | Exec string "string option" nat
  | ExecFailed string "string option"
  | Dispose
  | Log message

datatype exn = ConnectionError | SessionError string

datatype 'a outcome = Done 'a | Raised exn | Waiting
  \<comment> \<open>a step returns, throws, or waits for an answer that never comes\<close>

record world =
  connect_ok :: bool
  transport_fails :: "nat \<Rightarrow> bool"
  host_of :: host

text \<open>
  \<open>connect_ok\<close>: whether the session can be established. \<open>transport_fails n\<close>: whether
  the session rejects the \<open>n\<close>-th command submitted to it (counted from 0), the only way
  \<^verbatim>\<open>ssh.execCommand\<close> of node-ssh throws; a command that runs and exits with a non-zero
  status is a result, not an exception.
\<close>

record remote =
  files :: fs
  trace :: "event list"
  submitted :: nat

record cmd_result =
  code :: nat
  stdout :: string

definition emit :: "event \<Rightarrow> remote \<Rightarrow> remote" where
  "emit e r = r\<lparr>trace := trace r @ [e]\<rparr>"

definition execCommand ::
  "world \<Rightarrow> shell_cmd \<Rightarrow> string option \<Rightarrow> remote \<Rightarrow> cmd_result outcome \<times> remote" where
  "execCommand w c cwd r =
     (if transport_fails w (submitted r) then
        (Raised (SessionError (render c)),
         emit (ExecFailed (render c) cwd) (r\<lparr>submitted := Suc (submitted r)\<rparr>))
      else
        (case exec (host_of w) c (files r) of
           (st, out, f') \<Rightarrow>
             (Done \<lparr>code = st, stdout = out\<rparr>,
              emit (Exec (render c) cwd st) (r\<lparr>files := f', submitted := Suc (submitted r)\<rparr>))))"

definition connectToServer :: "world \<Rightarrow> remote \<Rightarrow> unit outcome \<times> remote" where
  "connectToServer w r =
     (if connect_ok w then (Done (), emit (Connect True) r)
      else (Raised ConnectionError, emit (Log FailedToConnect) (emit (Connect False) r)))"

definition runCommand ::
  "world \<Rightarrow> shell_cmd \<Rightarrow> string option \<Rightarrow> remote \<Rightarrow> cmd_result outcome \<times> remote" where
  "runCommand w c cwd r =
     (case execCommand w c cwd r of
        (Raised e, r') \<Rightarrow> (Raised e, emit (Log (FailedToExecute (render c))) r')
      | (res, r') \<Rightarrow> (res, r'))"

definition dispose :: "remote \<Rightarrow> remote" where
  "dispose r = emit Dispose r"


subsection \<open>Sequencing\<close>

type_synonym step = "remote \<Rightarrow> unit outcome \<times> remote"

definition skip :: step where
  "skip r = (Done (), r)"

definition discard :: "(remote \<Rightarrow> 'a outcome \<times> remote) \<Rightarrow> step" where
  \<comment> \<open>\<^verbatim>\<open>await m;\<close> with the value dropped\<close>
  "discard m r =
     (case m r of
        (Done x, r') \<Rightarrow> (Done (), r')
      | (Raised e, r') \<Rightarrow> (Raised e, r')
      | (Waiting, r') \<Rightarrow> (Waiting, r'))"

fun run_steps :: "step list \<Rightarrow> step" where
  \<comment> \<open>statements in sequence: the first that throws or waits ends the block\<close>
  "run_steps [] r = (Done (), r)"
| "run_steps (m # ms) r =
     (case m r of
        (Done u, r') \<Rightarrow> run_steps ms r'
      | (Raised e, r') \<Rightarrow> (Raised e, r')
      | (Waiting, r') \<Rightarrow> (Waiting, r'))"

definition attempt :: "step \<Rightarrow> step \<Rightarrow> step" where
  \<comment> \<open>\<^verbatim>\<open>try { m } catch (e) { h }\<close>\<close>
  "attempt m h r = (case m r of (Raised e, r') \<Rightarrow> h r' | (res, r') \<Rightarrow> (res, r'))"

definition say :: "message \<Rightarrow> step" where
  "say msg r = (Done (), emit (Log msg) r)"


section \<open>\<^verbatim>\<open>updateRemoteEnv\<close>\<close>

definition checkCmd :: "string \<Rightarrow> string \<Rightarrow> shell_cmd" where
  "checkCmd projectPath k = Simple (Grep False k (projectPath @ ''/.env'')) NoRedir"

definition safeUpdateCmd :: "string \<Rightarrow> string \<Rightarrow> string \<Rightarrow> shell_cmd" where
  "safeUpdateCmd projectPath k v =
     AndIf
       (AndIf
          (Simple (Grep True k (projectPath @ ''/.env'')) (Truncate (projectPath @ ''/.env.tmp'')))
          (Simple (Echo (k @ ''='' @ v)) (AppendTo (projectPath @ ''/.env.tmp''))))
       (Simple (Mv (projectPath @ ''/.env.tmp'') (projectPath @ ''/.env'')) NoRedir)"

definition appendCmd :: "string \<Rightarrow> string \<Rightarrow> string \<Rightarrow> shell_cmd" where
  "appendCmd projectPath k v =
     Simple (Echo (k @ ''='' @ v)) (AppendTo (projectPath @ ''/.env''))"

text \<open>
  The \<^verbatim>\<open>try\<close> block holds the probe, the rewrite and its message; the \<^verbatim>\<open>catch\<close>
  block, entered when the probe or the rewrite throws, holds the append. The result of
  the probe is not read.
\<close>

definition updateRemoteEnv :: "world \<Rightarrow> string \<Rightarrow> string \<Rightarrow> string \<Rightarrow> step" where
  "updateRemoteEnv w projectPath k v =
     (if \<not> regex_test env_key_re k then say (InvalidEnvKey k)
      else
        attempt
          (run_steps
             [discard (execCommand w (checkCmd projectPath k) None),
              discard (runCommand w (safeUpdateCmd projectPath k v) (Some projectPath)),
              say (UpdatedEnv k)])
          (run_steps
             [discard (runCommand w (appendCmd projectPath k v) (Some projectPath)),
              say (AppendedEnv k)]))"


section \<open>\<^verbatim>\<open>deploy\<close>\<close>

record options =
  project :: "string option"
  framework :: "string option"
  ai :: bool
  yes :: bool

text \<open>
  The local machine: the repository map, what \<^verbatim>\<open>git config --get remote.origin.url\<close>
  printed (\<open>None\<close> when the command failed) and the environment variables read by
  \<^verbatim>\<open>deploy\<close>. \<^verbatim>\<open>SSH_USERNAME\<close> only names the account of the connection and is left out.
\<close>

record local_env =
  repoMap :: "string \<Rightarrow> string option"
  git_remote :: "string option"
  SSH_HOST :: "string option"
  SSH_KEY_PATH :: "string option"
  GEMINI_API_KEY :: "string option"

text \<open>
  One answer of the user at the menu; key and value are what the user types after
  choosing \<^verbatim>\<open>Update .env\<close>.
\<close>

record reply =
  action :: string
  env_key :: string
  env_value :: string

datatype status = Exited nat | Returned | AwaitingInput
  \<comment> \<open>\<^verbatim>\<open>process.exit(n)\<close> was called; \<^verbatim>\<open>deploy\<close> returned; the prompt waits for ever\<close>

text \<open>
  When \<^verbatim>\<open>deploy\<close> returns, nothing else is pending and no exit code was set: the
  process ends with code 0.
\<close>

fun exit_code :: "status \<Rightarrow> nat option" where
  "exit_code (Exited n) = Some n"
| "exit_code Returned = Some 0"
| "exit_code AwaitingInput = None"

definition opaque :: "string \<Rightarrow> shell_cmd" where
  "opaque t = Simple (Opaque t) NoRedir"

definition safeDirectory :: "world \<Rightarrow> string \<Rightarrow> step" where
  "safeDirectory w projectPath =
     attempt (\<lambda>r.
       case execCommand w (opaque ''git config --global --get-all safe.directory'') None r of
         (Done safeDirs, r1) \<Rightarrow>
           if \<not> str_includes (stdout safeDirs) projectPath then
             discard (runCommand w
               (opaque (''git config --global --add safe.directory '' @ projectPath))
               (Some projectPath)) r1
           else (Done (), r1)
       | (Raised e, r1) \<Rightarrow> (Raised e, r1)
       | (Waiting, r1) \<Rightarrow> (Waiting, r1))
       skip"

definition takeOwnership :: "world \<Rightarrow> string \<Rightarrow> step" where
  "takeOwnership w projectPath =
     attempt
       (discard (runCommand w (opaque (''sudo chown -R $(whoami) '' @ projectPath))
          (Some projectPath)))
       skip"

definition choices :: "string option \<Rightarrow> string list" where
  "choices fw =
     (if fw = Some ''nestjs''
      then [''Run Prisma Generate'', ''Run Prisma DB Push'', ''Run Build''] else [])
     @ [''Update .env'', ''Continue Deployment'']"

definition keep_going :: "step \<Rightarrow> remote \<Rightarrow> bool outcome \<times> remote" where
  "keep_going m r =
     (case m r of
        (Done u, r') \<Rightarrow> (Done True, r')
      | (Raised e, r') \<Rightarrow> (Raised e, r')
      | (Waiting, r') \<Rightarrow> (Waiting, r'))"

text \<open>One turn of the \<^verbatim>\<open>while (continueLoop)\<close> loop; the result is \<^verbatim>\<open>continueLoop\<close>.\<close>

definition iteration :: "world \<Rightarrow> string \<Rightarrow> reply \<Rightarrow> remote \<Rightarrow> bool outcome \<times> remote" where
  "iteration w projectPath rp r =
     (if action rp = ''Run Prisma Generate'' then
        keep_going (discard (runCommand w (opaque ''npx prisma generate'') (Some projectPath))) r
      else if action rp = ''Run Prisma DB Push'' then
        keep_going (discard (runCommand w (opaque ''npx prisma db push'') (Some projectPath))) r
      else if action rp = ''Run Build'' then
        keep_going (discard (runCommand w (opaque ''yarn build'') (Some projectPath))) r
      else if action rp = ''Update .env'' then
        keep_going (updateRemoteEnv w projectPath (env_key rp) (env_value rp)) r
      else (Done False, r))"

text \<open>
  The loop runs on the answers of the user. The list prompt only returns an entry of
  the menu, so an answer that is not on the menu cannot be given and is passed over.
  When the answers run out before \<^verbatim>\<open>Continue Deployment\<close>, the prompt waits.
\<close>

fun interactiveLoop :: "world \<Rightarrow> string list \<Rightarrow> string \<Rightarrow> reply list \<Rightarrow> step" where
  "interactiveLoop w menu projectPath [] r = (Waiting, r)"
| "interactiveLoop w menu projectPath (rp # rest) r =
     (if action rp \<notin> set menu then interactiveLoop w menu projectPath rest r
      else
        (case iteration w projectPath rp r of
           (Done continueLoop, r') \<Rightarrow>
             if continueLoop then interactiveLoop w menu projectPath rest r' else (Done (), r')
         | (Raised e, r') \<Rightarrow> (Raised e, r')
         | (Waiting, r') \<Rightarrow> (Waiting, r')))"

definition interactiveMode :: "world \<Rightarrow> options \<Rightarrow> string \<Rightarrow> reply list \<Rightarrow> step" where
  "interactiveMode w opts projectPath script r =
     (if \<not> yes opts then
        interactiveLoop w (choices (framework opts)) projectPath script
          (emit (Log InteractiveModeEnabled) r)
      else skip r)"

fun frameworkTasks :: "world \<Rightarrow> string option \<Rightarrow> string \<Rightarrow> step" where
  "frameworkTasks w None projectPath r = (Done (), r)"
| "frameworkTasks w (Some fw) projectPath r =
     (if fw = [] then (Done (), r)
      else
        run_steps
          ([say (HandlingFrameworkTasks fw)]
           @ (if toLowerCase fw = ''nestjs'' \<or> toLowerCase fw = ''expressjs''
              then [discard (runCommand w (opaque ''npx prisma generate'') (Some projectPath))]
              else [])
           @ (if toLowerCase fw = ''nestjs''
              then [discard (runCommand w (opaque ''yarn build'') (Some projectPath))]
              else [])) r)"

definition restart :: "world \<Rightarrow> string \<Rightarrow> string \<Rightarrow> step" where
  "restart w proj projectPath =
     discard (runCommand w (opaque (''pm2 restart '' @ proj @ '' || pm2 restart index''))
       (Some projectPath))"

text \<open>
  \<^verbatim>\<open>generateDeploymentSummary\<close> (\<^verbatim>\<open>src/lib/ai.js\<close>) prints and catches its own errors;
  it sends nothing to the remote host.
\<close>

definition generateDeploymentSummary :: step where
  "generateDeploymentSummary = say AiSummary"

definition deployBody :: "world \<Rightarrow> options \<Rightarrow> string \<Rightarrow> reply list \<Rightarrow> step" where
  "deployBody w opts proj script =
     run_steps
       [connectToServer w,
        discard (runCommand w (opaque ''whoami'') None),
        discard (runCommand w (opaque ''sudo -i'') None),
        safeDirectory w (projectPathOf proj),
        takeOwnership w (projectPathOf proj),
        discard (runCommand w (opaque ''git pull origin staging'') (Some (projectPathOf proj))),
        interactiveMode w opts (projectPathOf proj) script,
        frameworkTasks w (framework opts) (projectPathOf proj),
        restart w proj (projectPathOf proj),
        (if ai opts then generateDeploymentSummary else skip)]"

definition resolveProject :: "local_env \<Rightarrow> options \<Rightarrow> string option" where
  "resolveProject le opts =
     (if truthy (project opts) then project opts
      else
        (case getGitRepoInfo (git_remote le) of
           None \<Rightarrow> None
         | Some repo \<Rightarrow>
             if repo \<noteq> [] \<and> truthy (repoMap le repo) then repoMap le repo else None))"

definition deploy ::
  "world \<Rightarrow> local_env \<Rightarrow> options \<Rightarrow> reply list \<Rightarrow> remote \<Rightarrow> status \<times> remote" where
  "deploy w le opts script r =
     (case resolveProject le opts of
        None \<Rightarrow> (Exited 1, emit (Log ProjectNotSpecified) r)
      | Some proj \<Rightarrow>
          if \<not> isValidProjectName proj then (Exited 1, emit (Log (InvalidProjectName proj)) r)
          else if \<not> truthy (SSH_HOST le) \<or> \<not> truthy (SSH_KEY_PATH le)
          then (Exited 1, emit (Log MissingCredentials) r)
          else
            (case deployBody w opts proj script r of
               (Done u, r') \<Rightarrow> (Returned, dispose r')
             | (Raised e, r') \<Rightarrow> (Returned, dispose (emit (Log DeploymentFailed) r'))
             | (Waiting, r') \<Rightarrow> (AwaitingInput, r')))"


section \<open>Notions of the specification\<close>

definition ascii_letters :: string where
  "ascii_letters = ''abcdefghijklmnopqrstuvwxyzABCDEFGHIJKLMNOPQRSTUVWXYZ''"

definition ascii_digits :: string where
  "ascii_digits = ''0123456789''"

definition project_name_chars :: string where
  "project_name_chars = ascii_letters @ ascii_digits @ ''._-''"

text \<open>
  How the remote system resolves an absolute path that crosses no symbolic link: empty
  components and \<^verbatim>\<open>.\<close> are dropped, \<^verbatim>\<open>..\<close> removes the component before it, and the
  parent of the root is the root. The result is the list of components from the root.
\<close>

fun split_on :: "char \<Rightarrow> string \<Rightarrow> string \<Rightarrow> string list" where
  "split_on c acc [] = [acc]"
| "split_on c acc (x # xs) =
     (if x = c then acc # split_on c [] xs else split_on c (acc @ [x]) xs)"

fun resolve_components :: "string list \<Rightarrow> string list \<Rightarrow> string list" where
  "resolve_components st [] = rev st"
| "resolve_components st (c # cs) =
     (if c = [] \<or> c = ''.'' then resolve_components st cs
      else if c = ''..'' then resolve_components (tl st) cs
      else resolve_components (c # st) cs)"

definition resolve_path :: "string \<Rightarrow> string list" where
  "resolve_path p = resolve_components [] (split_on (CHR ''/'') [] p)"

text \<open>A host where every opaque command succeeds silently, and a healthy session to it.\<close>

definition quiet_host :: host where
  "quiet_host t = (0, [])"

definition healthy :: world where
  "healthy = \<lparr>connect_ok = True, transport_fails = (\<lambda>n. False), host_of = quiet_host\<rparr>"

text \<open>The state before a run, and one with a \<^verbatim>\<open>.env\<close> file for the project \<^verbatim>\<open>demo\<close>.\<close>

definition fresh :: "fs \<Rightarrow> remote" where
  "fresh f = \<lparr>files = f, trace = [], submitted = 0\<rparr>"

definition demo_env :: "string \<Rightarrow> remote" where
  "demo_env content = fresh [''/var/www/demo/.env'' \<mapsto> content]"

definition demo_local :: local_env where
  "demo_local =
     \<lparr>repoMap = (\<lambda>repo. None), git_remote = None, SSH_HOST = Some ''staging.example'',
      SSH_KEY_PATH = Some ''/home/me/.ssh/id_ed25519'', GEMINI_API_KEY = None\<rparr>"

definition demo_options :: options where
  "demo_options = \<lparr>project = Some ''demo'', framework = Some ''nestjs'', ai = False, yes = True\<rparr>"

text \<open>How often an event occurs in the trace.\<close>

definition occurrences :: "event \<Rightarrow> remote \<Rightarrow> nat" where
  "occurrences e r = length (filter (\<lambda>x. x = e) (trace r))"


text \<open>A step that leaves the number of occurrences of an event as it found it.\<close>

definition preserves :: "event \<Rightarrow> (remote \<Rightarrow> 'a outcome \<times> remote) \<Rightarrow> bool" where
  "preserves e m = (\<forall>r. occurrences e (snd (m r)) = occurrences e r)"

text \<open>
  Events that only \<^verbatim>\<open>deploy\<close> itself produces: the release of the session and the two
  messages that announce the interactive loop and the scripted framework tasks.
\<close>

fun landmark :: "event \<Rightarrow> bool" where
  "landmark Dispose = True"
| "landmark (Log InteractiveModeEnabled) = True"
| "landmark (Log (HandlingFrameworkTasks fw)) = True"
| "landmark e = False"


text \<open>
  The event left by an opaque command that ran in a working directory: its exit status
  is the one the host gives it.
\<close>

definition ran_cmd :: "world \<Rightarrow> string \<Rightarrow> string option \<Rightarrow> event" where
  "ran_cmd w t cwd = Exec t cwd (fst (host_of w t))"

text \<open>A step that always returns normally and adds exactly the given events to the trace.\<close>

definition appends :: "step \<Rightarrow> event list \<Rightarrow> bool" where
  "appends m evs = (\<forall>r. fst (m r) = Done () \<and> trace (snd (m r)) = trace r @ evs)"

text \<open>
  The events of a non-interactive run for a \<^verbatim>\<open>nestjs\<close> project over a session that
  carries every command, up to the release of the session.
\<close>

definition nestjs_run :: "world \<Rightarrow> string \<Rightarrow> bool \<Rightarrow> event list" where
  "nestjs_run w proj with_ai =
     [Connect True,
      ran_cmd w ''whoami'' None,
      ran_cmd w ''sudo -i'' None,
      ran_cmd w ''git config --global --get-all safe.directory'' None]
     @ (if str_includes (snd (host_of w ''git config --global --get-all safe.directory''))
             (projectPathOf proj)
        then []
        else [ran_cmd w (''git config --global --add safe.directory '' @ projectPathOf proj)
                (Some (projectPathOf proj))])
     @ [ran_cmd w (''sudo chown -R $(whoami) '' @ projectPathOf proj) (Some (projectPathOf proj)),
        ran_cmd w ''git pull origin staging'' (Some (projectPathOf proj)),
        Log (HandlingFrameworkTasks ''nestjs''),
        ran_cmd w ''npx prisma generate'' (Some (projectPathOf proj)),
        ran_cmd w ''yarn build'' (Some (projectPathOf proj)),
        ran_cmd w (''pm2 restart '' @ proj @ '' || pm2 restart index'') (Some (projectPathOf proj))]
     @ (if with_ai then [Log AiSummary] else [])"























section \<open>The patterns\<close>

lemma in_project_name_class:
  "in_cls project_name_class c \<longleftrightarrow> c \<in> set project_name_chars"
  by (cases c)
    (simp add: project_name_class_def project_name_chars_def ascii_letters_def
      ascii_digits_def less_eq_char_def)

lemma in_env_key_head: "in_cls env_key_head c \<longleftrightarrow> c \<in> set (ascii_letters @ ''_'')"
  by (cases c) (simp add: env_key_head_def ascii_letters_def less_eq_char_def)

lemma in_env_key_tail:
  "in_cls env_key_tail c \<longleftrightarrow> c \<in> set (ascii_letters @ ascii_digits @ ''_'')"
  by (cases c) (simp add: env_key_tail_def ascii_letters_def ascii_digits_def less_eq_char_def)

lemma rmatch_star_eol:
  "rmatch [Star c True, Eol] s pos m = (if list_all (in_cls c) s then Some m else None)"
  by (induction s arbitrary: pos) auto

lemma rsearch_bol_later: "rsearch (Bol # as) s (Suc pos) = None"
  by (induction s arbitrary: pos) auto

lemma regex_test_anchored:
  "regex_test [Bol, One c, Star d True, Eol] s \<longleftrightarrow>
     (case s of [] \<Rightarrow> False | x # xs \<Rightarrow> in_cls c x \<and> list_all (in_cls d) xs)"
  by (cases s) (auto simp: regex_test_def regex_exec_def rmatch_star_eol rsearch_bol_later)

lemma isValidProjectName_iff:
  "isValidProjectName s \<longleftrightarrow> s \<noteq> [] \<and> set s \<subseteq> set project_name_chars"
  by (cases s)
    (auto simp: isValidProjectName_def project_name_re_def regex_test_anchored
      in_project_name_class list_all_iff)

lemma env_key_iff:
  "regex_test env_key_re k \<longleftrightarrow>
     (case k of [] \<Rightarrow> False
      | x # xs \<Rightarrow> x \<in> set (ascii_letters @ ''_'')
          \<and> set xs \<subseteq> set (ascii_letters @ ascii_digits @ ''_''))"
  by (cases k)
    (auto simp: env_key_re_def regex_test_anchored in_env_key_head in_env_key_tail list_all_iff)

lemma project_name_examples:
  "isValidProjectName ''my.project-1_a''" "\<not> isValidProjectName ''../etc''"
  "\<not> isValidProjectName ''a b''" "\<not> isValidProjectName ''a;rm -rf /''"
  "\<not> isValidProjectName []" "isValidProjectName ''..''" "isValidProjectName ''demo''"
  by (simp_all add: isValidProjectName_def project_name_re_def regex_test_anchored
      project_name_class_def)

lemma env_key_examples: "\<not> regex_test env_key_re ''1FOO''" "regex_test env_key_re ''FOO''"
  by (simp_all add: env_key_re_def regex_test_anchored env_key_head_def env_key_tail_def)

text \<open>
  Claim C5. The project-name validator accepts exactly the non-empty strings made of
  ASCII letters, digits, dot, underscore and dash; it accepts \<^verbatim>\<open>my.project-1_a\<close> and
  rejects \<^verbatim>\<open>../etc\<close>, \<^verbatim>\<open>a b\<close>, \<^verbatim>\<open>a;rm -rf /\<close> and the empty string.
\<close>

theorem C5_project_name_validator:
  "(isValidProjectName name \<longleftrightarrow> name \<noteq> [] \<and> set name \<subseteq> set project_name_chars)
   \<and> isValidProjectName ''my.project-1_a''
   \<and> \<not> isValidProjectName ''../etc''
   \<and> \<not> isValidProjectName ''a b''
   \<and> \<not> isValidProjectName ''a;rm -rf /''
   \<and> \<not> isValidProjectName []"
  using isValidProjectName_iff [of name] project_name_examples by simp

text \<open>
  Claim C10. The validator accepts the name \<^verbatim>\<open>..\<close>, which consists of dots only; the
  project path derived from it is \<^verbatim>\<open>/var/www/..\<close>, which resolves to \<^verbatim>\<open>/var\<close>, outside
  \<^verbatim>\<open>/var/www\<close>.
\<close>

theorem C10_dot_only_name_accepted:
  "isValidProjectName ''..''
   \<and> set ''..'' \<subseteq> {CHR ''.''}
   \<and> projectPathOf ''..'' = ''/var/www/..''
   \<and> resolve_path (projectPathOf ''..'') = [''var'']
   \<and> \<not> prefix [''var'', ''www''] (resolve_path (projectPathOf ''..''))"
  using project_name_examples(6) by (simp add: projectPathOf_def resolve_path_def)


section \<open>Escaping\<close>

lemma replace_global_concat:
  "replace_global c rep s = concat (map (\<lambda>x. if x = c then rep else [x]) s)"
  by (induction s) auto

lemma sh_lex_open_quote:
  "ys \<noteq> [] \<Longrightarrow> sh_lex False cur (squote # ys) = sh_lex True (Some (word_so_far cur)) ys"
  by (cases ys) auto

lemma sh_lex_escaped_quote:
  "sh_lex False cur (backslash # squote # ds) = sh_lex False (Some (word_so_far cur @ [squote])) ds"
  by (simp add: squote_def backslash_def newline_def)

lemma sh_lex_quoted:
  "sh_lex True (Some acc) (replace_global squote [squote, backslash, squote, squote] s @ squote # rest)
     = sh_lex False (Some (acc @ s)) rest"
proof (induction s arbitrary: acc)
  case Nil
  then show ?case by simp
next
  case (Cons x xs)
  show ?case
  proof (cases "x = squote")
    case True
    have "sh_lex True (Some acc)
            (replace_global squote [squote, backslash, squote, squote] (x # xs) @ squote # rest)
          = sh_lex False (Some acc)
              (backslash # squote # squote #
                 (replace_global squote [squote, backslash, squote, squote] xs @ squote # rest))"
      using True by simp
    also have "\<dots> = sh_lex False (Some (acc @ [squote]))
              (squote # (replace_global squote [squote, backslash, squote, squote] xs @ squote # rest))"
      by (simp only: sh_lex_escaped_quote word_so_far.simps)
    also have "\<dots> = sh_lex True (Some (acc @ [squote]))
              (replace_global squote [squote, backslash, squote, squote] xs @ squote # rest)"
      by (subst sh_lex_open_quote) simp_all
    also have "\<dots> = sh_lex False (Some ((acc @ [squote]) @ xs)) rest"
      by (rule Cons.IH)
    finally show ?thesis using True by simp
  next
    case False
    then show ?thesis using Cons.IH [of "acc @ [x]"] by simp
  qed
qed

text \<open>
  Claim C2. For every string, \<^verbatim>\<open>escapeShellArg\<close> wraps it in single quotes and replaces
  each single quote in it by the four characters quote, backslash, quote, quote, and
  changes nothing else; read back by the shell, the result is one literal word, the
  string itself.
\<close>

theorem C2_escape_roundtrip:
  "escapeShellArg s =
     [squote] @ concat (map (\<lambda>c. if c = squote then [squote, backslash, squote, squote] else [c]) s)
       @ [squote]
   \<and> sh_words (escapeShellArg s) = Some [s]"
proof
  show "escapeShellArg s =
     [squote] @ concat (map (\<lambda>c. if c = squote then [squote, backslash, squote, squote] else [c]) s)
       @ [squote]"
    by (simp add: escapeShellArg_def replace_global_concat)
  have "sh_words (escapeShellArg s)
      = sh_lex True (Some [])
          (replace_global squote [squote, backslash, squote, squote] s @ squote # [])"
    unfolding sh_words_def escapeShellArg_def
    by (simp add: sh_lex_open_quote)
  also have "\<dots> = sh_lex False (Some ([] @ s)) []"
    by (rule sh_lex_quoted)
  finally show "sh_words (escapeShellArg s) = Some [s]" by simp
qed


section \<open>The env file\<close>

lemma render_checkCmd:
  \<open>render (checkCmd p k) = ''grep "^'' @ k @ ''=" '' @ p @ ''/.env''\<close>
  by (simp add: checkCmd_def)

lemma render_safeUpdateCmd:
  \<open>render (safeUpdateCmd p k v) =
     ''grep -v "^'' @ k @ ''=" '' @ p @ ''/.env > '' @ p @ ''/.env.tmp && echo ''
       @ escapeShellArg (k @ ''='' @ v) @ '' >> '' @ p @ ''/.env.tmp && mv '' @ p
       @ ''/.env.tmp '' @ p @ ''/.env''\<close>
  by (simp add: safeUpdateCmd_def)

lemma render_appendCmd:
  "render (appendCmd p k v) = ''echo '' @ escapeShellArg (k @ ''='' @ v) @ '' >> '' @ p @ ''/.env''"
  by (simp add: appendCmd_def)

text \<open>
  Claim C8. With a key that does not match the env-key pattern, \<^verbatim>\<open>updateRemoteEnv\<close>
  reports the key and returns: no command is submitted and the remote files are as they
  were.
\<close>

theorem C8_invalid_key_no_remote_action:
  assumes "\<not> regex_test env_key_re k"
  shows "fst (updateRemoteEnv w projectPath k v r) = Done ()
       \<and> files (snd (updateRemoteEnv w projectPath k v r)) = files r
       \<and> submitted (snd (updateRemoteEnv w projectPath k v r)) = submitted r
       \<and> trace (snd (updateRemoteEnv w projectPath k v r)) = trace r @ [Log (InvalidEnvKey k)]"
  using assms by (simp add: updateRemoteEnv_def say_def emit_def)

theorem C8_invalid_key_witness:
  "\<not> regex_test env_key_re ''1FOO''
   \<and> fst (updateRemoteEnv healthy ''/var/www/demo'' ''1FOO'' ''x'' (demo_env ''A=1'')) = Done ()
   \<and> files (snd (updateRemoteEnv healthy ''/var/www/demo'' ''1FOO'' ''x'' (demo_env ''A=1'')))
        ''/var/www/demo/.env'' = Some ''A=1''
   \<and> submitted (snd (updateRemoteEnv healthy ''/var/www/demo'' ''1FOO'' ''x'' (demo_env ''A=1''))) = 0
   \<and> trace (snd (updateRemoteEnv healthy ''/var/www/demo'' ''1FOO'' ''x'' (demo_env ''A=1'')))
        = [Log (InvalidEnvKey ''1FOO'')]"
  using C8_invalid_key_no_remote_action [OF env_key_examples(1), of healthy "''/var/www/demo''"
      "''x''" "demo_env ''A=1''"]
  by (simp add: demo_env_def fresh_def env_key_examples)

text \<open>
  Claim C3. The claim: a non-zero exit status of the probe selects the append, and the
  rewrite through the temporary file runs only when the probe exits with 0; a session
  error alone is a hard failure. The code: on a file without the key the probe exits
  with 1 and the rewrite is what is sent next; when the session rejects the probe, the
  append is sent and \<^verbatim>\<open>updateRemoteEnv\<close> returns normally.
\<close>

theorem C3_probe_status_not_read:
  "trace (snd (updateRemoteEnv healthy ''/var/www/demo'' ''BAZ'' ''x''
       (demo_env (''BAR=2'' @ [newline]))))
     = [Exec (render (checkCmd ''/var/www/demo'' ''BAZ'')) None 1,
        Exec (render (safeUpdateCmd ''/var/www/demo'' ''BAZ'' ''x'')) (Some ''/var/www/demo'') 0,
        Log (UpdatedEnv ''BAZ'')]
   \<and> trace (snd (updateRemoteEnv (healthy\<lparr>transport_fails := (\<lambda>n. n = 0)\<rparr>) ''/var/www/demo''
       ''BAR'' ''x'' (demo_env (''BAR=2'' @ [newline]))))
     = [ExecFailed (render (checkCmd ''/var/www/demo'' ''BAR'')) None,
        Exec (render (appendCmd ''/var/www/demo'' ''BAR'' ''x'')) (Some ''/var/www/demo'') 0,
        Log (AppendedEnv ''BAR'')]
   \<and> fst (updateRemoteEnv (healthy\<lparr>transport_fails := (\<lambda>n. n = 0)\<rparr>) ''/var/www/demo''
       ''BAR'' ''x'' (demo_env (''BAR=2'' @ [newline]))) = Done ()"
  by code_simp

lemma split_lines_free:
  "newline \<notin> set acc \<Longrightarrow> list_all (\<lambda>l. newline \<notin> set l) (split_lines acc c)"
  by (induction c arbitrary: acc) simp_all

lemma lines_of_free: "l \<in> set (lines_of c) \<Longrightarrow> newline \<notin> set l"
  using split_lines_free [of "[]" c] by (simp add: lines_of_def list_all_iff)

lemma split_lines_line:
  "newline \<notin> set l \<Longrightarrow> split_lines acc (l @ newline # rest) = (acc @ l) # split_lines [] rest"
  by (induction l arbitrary: acc) auto

lemma lines_of_unlines:
  "(\<And>l. l \<in> set ls \<Longrightarrow> newline \<notin> set l) \<Longrightarrow> lines_of (unlines ls @ rest) = ls @ lines_of rest"
proof (induction ls)
  case Nil
  then show ?case by (simp add: unlines_def)
next
  case (Cons l ls)
  have "lines_of (unlines (l # ls) @ rest) = split_lines [] (l @ newline # (unlines ls @ rest))"
    by (simp add: lines_of_def unlines_def)
  also have "\<dots> = l # lines_of (unlines ls @ rest)"
    using Cons.prems [of l] by (simp add: split_lines_line lines_of_def)
  finally show ?case using Cons by simp
qed

lemma env_paths_differ: "p @ ''/.env'' \<noteq> p @ ''/.env.tmp''"
  by simp

lemma env_key_free: "regex_test env_key_re k \<Longrightarrow> newline \<notin> set k"
  by (cases k) (auto simp: env_key_iff newline_def ascii_letters_def ascii_digits_def)

text \<open>
  What the rewrite does when at least one line of the file does not carry the key: the
  other lines are kept in order, and the new line is the last one.
\<close>

lemma exec_safeUpdateCmd:
  assumes "f (p @ ''/.env'') = Some content"
    and "filter (\<lambda>l. \<not> prefix (k @ ''='') l) (lines_of content) \<noteq> []"
  shows "exec h (safeUpdateCmd p k v) f =
     (0, [],
      f(p @ ''/.env'' \<mapsto>
          unlines (filter (\<lambda>l. \<not> prefix (k @ ''='') l) (lines_of content)) @ k @ ''='' @ v @ [newline],
        p @ ''/.env.tmp'' := None))"
  using assms by (auto simp: safeUpdateCmd_def fun_upd_twist)

lemma updateRemoteEnv_rewrites:
  assumes "regex_test env_key_re k" and "\<And>n. \<not> transport_fails w n"
    and "files r (p @ ''/.env'') = Some content"
    and "filter (\<lambda>l. \<not> prefix (k @ ''='') l) (lines_of content) \<noteq> []"
    and "newline \<notin> set v"
  shows "map_option lines_of (files (snd (updateRemoteEnv w p k v r)) (p @ ''/.env''))
     = Some (filter (\<lambda>l. \<not> prefix (k @ ''='') l) (lines_of content) @ [k @ ''='' @ v])"
proof -
  let ?others = "filter (\<lambda>l. \<not> prefix (k @ ''='') l) (lines_of content)"
  obtain st out where probe: "exec (host_of w) (checkCmd p k) (files r) = (st, out, files r)"
    using assms(3) by (simp add: checkCmd_def Let_def)
  have h: "\<not> transport_fails w n" for n using assms(2) .
  have "files (snd (updateRemoteEnv w p k v r)) (p @ ''/.env'')
      = Some (unlines ?others @ k @ ''='' @ v @ [newline])"
    using assms(1) h probe
      exec_safeUpdateCmd [of "files r" p content k "host_of w" v, OF assms(3,4)]
    by (simp add: updateRemoteEnv_def attempt_def discard_def runCommand_def execCommand_def
        say_def emit_def)
  moreover have "lines_of (unlines ?others @ (k @ ''='' @ v) @ [newline]) = ?others @ [k @ ''='' @ v]"
  proof -
    have "lines_of (unlines ?others @ (k @ ''='' @ v) @ [newline])
        = ?others @ lines_of ((k @ ''='' @ v) @ [newline])"
      by (rule lines_of_unlines) (auto dest: lines_of_free)
    moreover have "lines_of ((k @ ''='' @ v) @ newline # []) = [k @ ''='' @ v]"
      unfolding lines_of_def
      using env_key_free [OF assms(1)] assms(5)
      by (subst split_lines_line) (auto simp: newline_def)
    ultimately show ?thesis by simp
  qed
  ultimately show ?thesis by simp
qed

text \<open>
  Claim C1. The claim: after \<^verbatim>\<open>updateRemoteEnv\<close> the file has exactly one line for
  the key, with the new value. The code: on a file whose only line is \<^verbatim>\<open>FOO=1\<close>,
  setting \<^verbatim>\<open>FOO\<close> to \<^verbatim>\<open>3\<close> leaves the file as it was, and an empty \<^verbatim>\<open>.env.tmp\<close>
  beside it: \<^verbatim>\<open>grep -v\<close> selects no line, exits with 1, and the \<^verbatim>\<open>&&\<close> chain stops
  before \<^verbatim>\<open>echo\<close> and \<^verbatim>\<open>mv\<close>. (When another line remains, the rewrite does what the
  claim says: \<open>updateRemoteEnv_rewrites\<close>.)
\<close>

theorem C1_only_line_not_replaced:
  "fst (updateRemoteEnv healthy ''/var/www/demo'' ''FOO'' ''3''
       (demo_env (''FOO=1'' @ [newline]))) = Done ()
   \<and> map_option lines_of
       (files (snd (updateRemoteEnv healthy ''/var/www/demo'' ''FOO'' ''3''
          (demo_env (''FOO=1'' @ [newline])))) ''/var/www/demo/.env'') = Some [''FOO=1'']
   \<and> files (snd (updateRemoteEnv healthy ''/var/www/demo'' ''FOO'' ''3''
          (demo_env (''FOO=1'' @ [newline])))) ''/var/www/demo/.env.tmp'' = Some []"
  by code_simp


section \<open>The deployment sequence\<close>

lemma occurrences_emit:
  "occurrences e (emit e' r) = occurrences e r + (if e' = e then 1 else 0)"
  by (simp add: occurrences_def emit_def)

lemma occurrences_update:
  "occurrences e (r\<lparr>files := f\<rparr>) = occurrences e r"
  "occurrences e (r\<lparr>submitted := n\<rparr>) = occurrences e r"
  by (simp_all add: occurrences_def)

lemma preservesD: "preserves e m \<Longrightarrow> occurrences e (snd (m r)) = occurrences e r"
  by (simp add: preserves_def)

lemma preserves_execCommand: "landmark e \<Longrightarrow> preserves e (execCommand w c cwd)"
  unfolding preserves_def execCommand_def
  by (cases e rule: landmark.cases)
     (simp_all add: occurrences_emit occurrences_update split: prod.splits)

lemma preserves_runCommand: "landmark e \<Longrightarrow> preserves e (runCommand w c cwd)"
proof -
  assume l: "landmark e"
  show ?thesis
    unfolding preserves_def
  proof
    fix r
    obtain res r' where x: "execCommand w c cwd r = (res, r')" by (cases "execCommand w c cwd r")
    have "occurrences e r' = occurrences e r"
      using preservesD [OF preserves_execCommand [OF l], of w c cwd r] x by simp
    moreover have "e \<noteq> Log (FailedToExecute (render c))" using l by auto
    ultimately show "occurrences e (snd (runCommand w c cwd r)) = occurrences e r"
      using x by (cases res) (simp_all add: runCommand_def occurrences_emit)
  qed
qed

lemma preserves_discard: "preserves e m \<Longrightarrow> preserves e (discard m)"
  unfolding preserves_def discard_def
  by (auto split: prod.splits outcome.splits) (metis snd_conv)+

lemma preserves_skip: "preserves e skip"
  by (simp add: preserves_def skip_def)

lemma preserves_say: "e \<noteq> Log msg \<Longrightarrow> preserves e (say msg)"
  by (simp add: preserves_def say_def occurrences_emit)

lemma preserves_attempt:
  assumes "preserves e m" "preserves e h"
  shows "preserves e (attempt m h)"
  unfolding preserves_def
proof
  fix r
  obtain res r' where x: "m r = (res, r')" by (cases "m r")
  have a: "occurrences e r' = occurrences e r"
    using preservesD [OF assms(1), of r] x by simp
  show "occurrences e (snd (attempt m h r)) = occurrences e r"
    using x a preservesD [OF assms(2), of r'] by (cases res) (simp_all add: attempt_def)
qed

lemma preserves_run_steps:
  "list_all (preserves e) ms \<Longrightarrow> preserves e (run_steps ms)"
  unfolding preserves_def
proof (induction ms)
  case Nil
  then show ?case by simp
next
  case (Cons m ms)
  show ?case
  proof
    fix r
    obtain res r' where x: "m r = (res, r')" by (cases "m r")
    have a: "occurrences e r' = occurrences e r"
      using Cons.prems x by (auto simp: preserves_def dest: spec [of _ r])
    have b: "occurrences e (snd (run_steps ms r')) = occurrences e r'"
      using Cons by simp
    show "occurrences e (snd (run_steps (m # ms) r)) = occurrences e r"
      using x a b by (cases res) simp_all
  qed
qed

lemma preserves_updateRemoteEnv: "landmark e \<Longrightarrow> preserves e (updateRemoteEnv w p k v)"
  unfolding updateRemoteEnv_def
  by (auto intro!: preserves_say preserves_attempt preserves_run_steps preserves_discard
      preserves_execCommand preserves_runCommand)


lemma preserves_keep_going: "preserves e m \<Longrightarrow> preserves e (keep_going m)"
  unfolding preserves_def keep_going_def
  by (auto split: prod.splits outcome.splits) (metis snd_conv)+

lemma preserves_iteration: "landmark e \<Longrightarrow> preserves e (iteration w p rp)"
proof -
  assume l: "landmark e"
  have a: "\<And>t. preserves e (keep_going (discard (runCommand w (opaque t) (Some p))))"
    by (intro preserves_keep_going preserves_discard preserves_runCommand l)
  have b: "preserves e (keep_going (updateRemoteEnv w p (env_key rp) (env_value rp)))"
    by (intro preserves_keep_going preserves_updateRemoteEnv l)
  show ?thesis
    using a b unfolding preserves_def iteration_def by simp
qed

lemma preserves_interactiveLoop: "landmark e \<Longrightarrow> preserves e (interactiveLoop w menu p script)"
  unfolding preserves_def
proof (induction script)
  case Nil
  then show ?case by simp
next
  case (Cons rp rest)
  show ?case
  proof
    fix r
    obtain res r' where x: "iteration w p rp r = (res, r')" by (cases "iteration w p rp r")
    have a: "occurrences e r' = occurrences e r"
      using preservesD [OF preserves_iteration [OF Cons.prems], of w p rp r] x by simp
    have b: "\<And>r. occurrences e (snd (interactiveLoop w menu p rest r)) = occurrences e r"
      using Cons by simp
    show "occurrences e (snd (interactiveLoop w menu p (rp # rest) r)) = occurrences e r"
      using x a b by (cases res) simp_all
  qed
qed

lemma preserves_interactiveMode:
  "landmark e \<Longrightarrow> e \<noteq> Log InteractiveModeEnabled \<Longrightarrow> preserves e (interactiveMode w opts p script)"
  using preservesD [OF preserves_interactiveLoop, of e w]
  by (simp add: preserves_def interactiveMode_def occurrences_emit skip_def)

lemma preserves_frameworkTasks:
  assumes "landmark e" "\<And>fw. e \<noteq> Log (HandlingFrameworkTasks fw)"
  shows "preserves e (frameworkTasks w fwo p)"
proof (cases fwo)
  case None
  then show ?thesis by (simp add: preserves_def)
next
  case (Some fw)
  have "preserves e (run_steps
          ([say (HandlingFrameworkTasks fw)]
           @ (if toLowerCase fw = ''nestjs'' \<or> toLowerCase fw = ''expressjs''
              then [discard (runCommand w (opaque ''npx prisma generate'') (Some p))]
              else [])
           @ (if toLowerCase fw = ''nestjs''
              then [discard (runCommand w (opaque ''yarn build'') (Some p))]
              else [])))"
    using assms
    by (intro preserves_run_steps)
       (simp add: preserves_say preserves_discard preserves_runCommand)
  then have "\<And>r. occurrences e (snd (frameworkTasks w fwo p r)) = occurrences e r"
    using Some by (cases "fw = []") (simp_all add: preserves_def del: run_steps.simps)
  then show ?thesis by (simp add: preserves_def)
qed

lemma preserves_safeDirectory: "landmark e \<Longrightarrow> preserves e (safeDirectory w p)"
proof -
  assume l: "landmark e"
  let ?get = "execCommand w (opaque ''git config --global --get-all safe.directory'') None"
  let ?add = "discard (runCommand w
               (opaque (''git config --global --add safe.directory '' @ p)) (Some p))"
  have add: "preserves e ?add"
    by (intro preserves_discard preserves_runCommand l)
  have "preserves e (\<lambda>r. case ?get r of
         (Done safeDirs, r1) \<Rightarrow>
           if \<not> str_includes (stdout safeDirs) p then ?add r1 else (Done (), r1)
       | (Raised e, r1) \<Rightarrow> (Raised e, r1)
       | (Waiting, r1) \<Rightarrow> (Waiting, r1))"
    unfolding preserves_def
  proof
    fix r
    obtain res r1 where x: "?get r = (res, r1)" by (cases "?get r")
    have a: "occurrences e r1 = occurrences e r"
      using preservesD [OF preserves_execCommand [OF l],
          of w "opaque ''git config --global --get-all safe.directory''" None r] x
      by simp
    show "occurrences e (snd (case ?get r of
         (Done safeDirs, r1) \<Rightarrow>
           if \<not> str_includes (stdout safeDirs) p then ?add r1 else (Done (), r1)
       | (Raised e, r1) \<Rightarrow> (Raised e, r1)
       | (Waiting, r1) \<Rightarrow> (Waiting, r1))) = occurrences e r"
      using x a preservesD [OF add, of r1] by (cases res) simp_all
  qed
  then show ?thesis
    unfolding safeDirectory_def by (intro preserves_attempt preserves_skip)
qed

lemma preserves_takeOwnership: "landmark e \<Longrightarrow> preserves e (takeOwnership w p)"
  unfolding takeOwnership_def
  by (intro preserves_attempt preserves_skip preserves_discard preserves_runCommand)

lemma preserves_connect: "landmark e \<Longrightarrow> preserves e (connectToServer w)"
  by (cases e rule: landmark.cases) (simp_all add: preserves_def connectToServer_def occurrences_emit)

lemma preserves_restart: "landmark e \<Longrightarrow> preserves e (restart w proj p)"
  unfolding restart_def by (intro preserves_discard preserves_runCommand)

lemma preserves_summary: "landmark e \<Longrightarrow> preserves e generateDeploymentSummary"
  unfolding generateDeploymentSummary_def by (intro preserves_say) auto

lemma deployBody_keeps_session:
  "preserves Dispose (deployBody w opts proj script)"
  unfolding deployBody_def
  by (intro preserves_run_steps)
     (simp add: preserves_connect preserves_discard preserves_runCommand preserves_safeDirectory
        preserves_takeOwnership preserves_interactiveMode preserves_frameworkTasks
        preserves_restart preserves_summary preserves_skip)


text \<open>
  Claim C9. A run that reaches the connection phase and ends releases the session
  exactly once, as its last action, whatever happened in between: success, a failed
  connection, or a session error at any command.
\<close>

theorem C9_session_released_once:
  assumes "resolveProject le opts = Some proj" and "isValidProjectName proj"
    and "truthy (SSH_HOST le)" and "truthy (SSH_KEY_PATH le)"
    and "fst (deploy w le opts script r) \<noteq> AwaitingInput"
  shows "occurrences Dispose (snd (deploy w le opts script r)) = Suc (occurrences Dispose r)
       \<and> last (trace (snd (deploy w le opts script r))) = Dispose"
proof -
  obtain res r' where x: "deployBody w opts proj script r = (res, r')"
    by (cases "deployBody w opts proj script r")
  have a: "occurrences Dispose r' = occurrences Dispose r"
    using preservesD [OF deployBody_keeps_session, of w opts proj script r] x by simp
  show ?thesis
    using assms x a
    by (cases res) (simp_all add: deploy_def dispose_def occurrences_emit, simp_all add: emit_def)
qed

theorem C9_session_released_witness:
  "resolveProject demo_local demo_options = Some ''demo''
   \<and> isValidProjectName ''demo''
   \<and> truthy (SSH_HOST demo_local) \<and> truthy (SSH_KEY_PATH demo_local)
   \<and> fst (deploy (healthy\<lparr>transport_fails := (\<lambda>n. n = 5)\<rparr>) demo_local demo_options []
        (fresh Map.empty)) = Returned
   \<and> occurrences Dispose (snd (deploy (healthy\<lparr>transport_fails := (\<lambda>n. n = 5)\<rparr>) demo_local
        demo_options [] (fresh Map.empty))) = 1
   \<and> last (trace (snd (deploy (healthy\<lparr>transport_fails := (\<lambda>n. n = 5)\<rparr>) demo_local
        demo_options [] (fresh Map.empty)))) = Dispose"
proof -
  let ?w = "healthy\<lparr>transport_fails := (\<lambda>n. n = 5)\<rparr>"
  have a: "resolveProject demo_local demo_options = Some ''demo''"
    by (simp add: resolveProject_def demo_options_def)
  have b: "truthy (SSH_HOST demo_local)" "truthy (SSH_KEY_PATH demo_local)"
    by (simp_all add: demo_local_def)
  have c: "fst (deploy ?w demo_local demo_options [] (fresh Map.empty)) = Returned"
    by code_simp
  then have d: "fst (deploy ?w demo_local demo_options [] (fresh Map.empty)) \<noteq> AwaitingInput"
    by simp
  have e: "occurrences Dispose (fresh Map.empty) = 0"
    by (simp add: occurrences_def fresh_def)
  show ?thesis
    using C9_session_released_once [OF a project_name_examples(7) b d] a b c e
      project_name_examples(7)
    by simp
qed

lemma appendsD:
  "appends m evs \<Longrightarrow> m r = (Done (), snd (m r)) \<and> trace (snd (m r)) = trace r @ evs"
  by (metis appends_def prod.collapse)

lemma appends_opaque:
  assumes "\<And>n. \<not> transport_fails w n"
  shows "appends (discard (runCommand w (opaque t) cwd)) [ran_cmd w t cwd]"
  using assms
  by (simp add: appends_def discard_def runCommand_def execCommand_def opaque_def ran_cmd_def emit_def)

lemma appends_skip: "appends skip []"
  by (simp add: appends_def skip_def)

lemma appends_say: "appends (say msg) [Log msg]"
  by (simp add: appends_def say_def emit_def)

lemma appends_connect: "connect_ok w \<Longrightarrow> appends (connectToServer w) [Connect True]"
  by (simp add: appends_def connectToServer_def emit_def)

lemma appends_attempt: "appends m evs \<Longrightarrow> appends (attempt m h) evs"
  unfolding appends_def attempt_def
  by (auto split: prod.splits outcome.splits) (metis fst_conv snd_conv outcome.distinct)+

lemma appends_nil: "appends (run_steps []) []"
  by (simp add: appends_def)

lemma appends_cons:
  assumes "appends m evs" "appends (run_steps ms) evs'"
  shows "appends (run_steps (m # ms)) (evs @ evs')"
  unfolding appends_def
proof
  fix r
  have a: "m r = (Done (), snd (m r))" "trace (snd (m r)) = trace r @ evs"
    using appendsD [OF assms(1), of r] by simp_all
  have b: "fst (run_steps ms (snd (m r))) = Done ()"
    "trace (snd (run_steps ms (snd (m r)))) = trace (snd (m r)) @ evs'"
    using assms(2) by (simp_all add: appends_def)
  have "run_steps (m # ms) r = run_steps ms (snd (m r))"
    by (subst run_steps.simps, subst a(1)) simp
  then show "fst (run_steps (m # ms) r) = Done ()
      \<and> trace (snd (run_steps (m # ms) r)) = trace r @ evs @ evs'"
    using a b by simp
qed

lemma execCommand_opaque:
  assumes "\<And>n. \<not> transport_fails w n"
  shows "execCommand w (opaque t) cwd r =
     (Done \<lparr>code = fst (host_of w t), stdout = snd (host_of w t)\<rparr>,
      emit (ran_cmd w t cwd) (r\<lparr>submitted := Suc (submitted r)\<rparr>))"
  using assms by (simp add: execCommand_def opaque_def ran_cmd_def)

lemma appends_safeDirectory:
  assumes h: "\<And>n. \<not> transport_fails w n"
  shows "appends (safeDirectory w p)
     (ran_cmd w ''git config --global --get-all safe.directory'' None
      # (if str_includes (snd (host_of w ''git config --global --get-all safe.directory'')) p
         then [] else [ran_cmd w (''git config --global --add safe.directory '' @ p) (Some p)]))"
  unfolding safeDirectory_def
proof (rule appends_attempt, unfold appends_def, rule allI)
  fix r
  let ?r1 = "emit (ran_cmd w ''git config --global --get-all safe.directory'' None)
      (r\<lparr>submitted := Suc (submitted r)\<rparr>)"
  let ?add = "discard (runCommand w
      (opaque (''git config --global --add safe.directory '' @ p)) (Some p))"
  have t1: "trace ?r1 = trace r @ [ran_cmd w ''git config --global --get-all safe.directory'' None]"
    by (simp add: emit_def)
  have add: "fst (?add ?r1) = Done ()"
    "trace (snd (?add ?r1)) = trace ?r1 @ [ran_cmd w (''git config --global --add safe.directory '' @ p) (Some p)]"
    using appends_opaque [OF h, of "''git config --global --add safe.directory '' @ p" "Some p"]
    by (simp_all add: appends_def)
  show "fst (case execCommand w (opaque ''git config --global --get-all safe.directory'') None r of
         (Done safeDirs, r1) \<Rightarrow>
           if \<not> str_includes (stdout safeDirs) p then ?add r1 else (Done (), r1)
       | (Raised e, r1) \<Rightarrow> (Raised e, r1)
       | (Waiting, r1) \<Rightarrow> (Waiting, r1)) = Done ()
     \<and> trace (snd (case execCommand w (opaque ''git config --global --get-all safe.directory'') None r of
         (Done safeDirs, r1) \<Rightarrow>
           if \<not> str_includes (stdout safeDirs) p then ?add r1 else (Done (), r1)
       | (Raised e, r1) \<Rightarrow> (Raised e, r1)
       | (Waiting, r1) \<Rightarrow> (Waiting, r1)))
       = trace r @ ran_cmd w ''git config --global --get-all safe.directory'' None
      # (if str_includes (snd (host_of w ''git config --global --get-all safe.directory'')) p
         then [] else [ran_cmd w (''git config --global --add safe.directory '' @ p) (Some p)])"
    using add t1 by (simp add: execCommand_opaque [OF h])
qed

lemma appends_takeOwnership:
  assumes "\<And>n. \<not> transport_fails w n"
  shows "appends (takeOwnership w p) [ran_cmd w (''sudo chown -R $(whoami) '' @ p) (Some p)]"
  unfolding takeOwnership_def by (intro appends_attempt appends_opaque assms)

lemma toLowerCase_nestjs: "toLowerCase ''nestjs'' = ''nestjs''"
  by (simp add: toLowerCase_def lower_char_def less_eq_char_def)

lemma appends_frameworkTasks_nestjs:
  assumes "\<And>n. \<not> transport_fails w n"
  shows "appends (frameworkTasks w (Some ''nestjs'') p)
     [Log (HandlingFrameworkTasks ''nestjs''), ran_cmd w ''npx prisma generate'' (Some p),
      ran_cmd w ''yarn build'' (Some p)]"
proof -
  have "appends (run_steps [say (HandlingFrameworkTasks ''nestjs''),
          discard (runCommand w (opaque ''npx prisma generate'') (Some p)),
          discard (runCommand w (opaque ''yarn build'') (Some p))])
     ([Log (HandlingFrameworkTasks ''nestjs'')] @ [ran_cmd w ''npx prisma generate'' (Some p)]
       @ [ran_cmd w ''yarn build'' (Some p)] @ [])"
    by (intro appends_cons appends_nil appends_say appends_opaque assms)
  then show ?thesis
    by (simp add: appends_def toLowerCase_nestjs del: run_steps.simps)
qed

lemma deployBody_nestjs:
  assumes "connect_ok w" and h: "\<And>n. \<not> transport_fails w n"
    and "framework opts = Some ''nestjs''" and "yes opts"
  shows "appends (deployBody w opts proj script) (nestjs_run w proj (ai opts))"
proof -
  let ?p = "projectPathOf proj"
  have im: "appends (interactiveMode w opts ?p script) []"
    using assms(4) by (simp add: appends_def interactiveMode_def skip_def)
  have ai: "appends (if ai opts then generateDeploymentSummary else skip)
      (if ai opts then [Log AiSummary] else [])"
    by (simp add: appends_skip appends_say generateDeploymentSummary_def)
  have "appends (deployBody w opts proj script)
     ([Connect True] @ [ran_cmd w ''whoami'' None] @ [ran_cmd w ''sudo -i'' None]
      @ (ran_cmd w ''git config --global --get-all safe.directory'' None
         # (if str_includes (snd (host_of w ''git config --global --get-all safe.directory'')) ?p
            then [] else [ran_cmd w (''git config --global --add safe.directory '' @ ?p) (Some ?p)]))
      @ [ran_cmd w (''sudo chown -R $(whoami) '' @ ?p) (Some ?p)]
      @ [ran_cmd w ''git pull origin staging'' (Some ?p)]
      @ []
      @ [Log (HandlingFrameworkTasks ''nestjs''), ran_cmd w ''npx prisma generate'' (Some ?p),
         ran_cmd w ''yarn build'' (Some ?p)]
      @ [ran_cmd w (''pm2 restart '' @ proj @ '' || pm2 restart index'') (Some ?p)]
      @ (if ai opts then [Log AiSummary] else []) @ [])"
    unfolding deployBody_def assms(3) restart_def
    by (intro appends_cons appends_nil appends_connect appends_opaque appends_safeDirectory
        appends_takeOwnership appends_frameworkTasks_nestjs im ai assms(1) h)
  then show ?thesis by (simp add: nestjs_run_def)
qed


lemma valid_name_truthy: "isValidProjectName proj \<Longrightarrow> truthy (Some proj)"
  by (simp add: isValidProjectName_iff)

lemma deploy_connect_fails:
  assumes "resolveProject le opts = Some proj" "isValidProjectName proj"
    "truthy (SSH_HOST le)" "truthy (SSH_KEY_PATH le)" "\<not> connect_ok w"
  shows "deploy w le opts script r =
     (Returned,
      r\<lparr>trace := trace r @ [Connect False, Log FailedToConnect, Log DeploymentFailed, Dispose]\<rparr>)"
  using assms
  by (simp add: deploy_def deployBody_def connectToServer_def dispose_def emit_def)

text \<open>
  A non-interactive run for a valid project with framework \<^verbatim>\<open>nestjs\<close>: over a session
  that carries every command it sends its commands in order and returns, whatever exit
  status \<^verbatim>\<open>git pull\<close> or any other command has; when the connection cannot be
  established it sends no command and returns as well.
\<close>

lemma deploy_nestjs_batch:
  assumes "project opts = Some proj" and "isValidProjectName proj"
    and "framework opts = Some ''nestjs''" and "yes opts"
    and "truthy (SSH_HOST le)" and "truthy (SSH_KEY_PATH le)"
  shows "(connect_ok w \<and> (\<forall>n. \<not> transport_fails w n) \<longrightarrow>
            exit_code (fst (deploy w le opts script r)) = Some 0
          \<and> trace (snd (deploy w le opts script r))
              = trace r @ nestjs_run w proj (ai opts) @ [Dispose])
       \<and> (\<not> connect_ok w \<longrightarrow>
            exit_code (fst (deploy w le opts script r)) = Some 0
          \<and> trace (snd (deploy w le opts script r))
              = trace r @ [Connect False, Log FailedToConnect, Log DeploymentFailed, Dispose])"
proof -
  have rp: "resolveProject le opts = Some proj"
    using assms(1) valid_name_truthy [OF assms(2)] by (simp add: resolveProject_def)
  have ok: "exit_code (fst (deploy w le opts script r)) = Some 0
          \<and> trace (snd (deploy w le opts script r))
              = trace r @ nestjs_run w proj (ai opts) @ [Dispose]"
    if c: "connect_ok w" and h: "\<forall>n. \<not> transport_fails w n"
  proof -
    have "appends (deployBody w opts proj script) (nestjs_run w proj (ai opts))"
      using deployBody_nestjs [OF c _ assms(3,4)] h by simp
    then obtain r' where "deployBody w opts proj script r = (Done (), r')"
      and "trace r' = trace r @ nestjs_run w proj (ai opts)"
      using appendsD by blast
    then show ?thesis
      using rp assms(2,5,6)
      by (simp add: deploy_def dispose_def emit_def)
  qed
  have ko: "exit_code (fst (deploy w le opts script r)) = Some 0
          \<and> trace (snd (deploy w le opts script r))
              = trace r @ [Connect False, Log FailedToConnect, Log DeploymentFailed, Dispose]"
    if "\<not> connect_ok w"
    using deploy_connect_fails [OF rp assms(2,5,6) that] by simp
  show ?thesis using ok ko by blast
qed

text \<open>After its three checks, \<^verbatim>\<open>deploy\<close> never calls \<^verbatim>\<open>process.exit\<close>.\<close>

lemma deploy_no_exit_after_checks:
  assumes "resolveProject le opts = Some proj" and "isValidProjectName proj"
    and "truthy (SSH_HOST le)" and "truthy (SSH_KEY_PATH le)"
  shows "fst (deploy w le opts script r) = Returned \<or> fst (deploy w le opts script r) = AwaitingInput"
proof -
  obtain res r' where "deployBody w opts proj script r = (res, r')"
    by (cases "deployBody w opts proj script r")
  then show ?thesis using assms by (cases res) (simp_all add: deploy_def)
qed

text \<open>
  Claim C4. The claim: when the connection cannot be established, the process exits
  with code 1 before any further remote step runs. The code: no further remote step
  runs, the failure is logged and the session released, but the process ends with exit
  code 0; the three checks before the connection end it with code 1, as here for a
  missing host.
\<close>

theorem C4_connect_failure_exits_zero:
  "exit_code (fst (deploy (healthy\<lparr>connect_ok := False\<rparr>) demo_local demo_options []
      (fresh Map.empty))) = Some 0
   \<and> trace (snd (deploy (healthy\<lparr>connect_ok := False\<rparr>) demo_local demo_options []
      (fresh Map.empty))) = [Connect False, Log FailedToConnect, Log DeploymentFailed, Dispose]
   \<and> exit_code (fst (deploy healthy (demo_local\<lparr>SSH_HOST := None\<rparr>) demo_options []
      (fresh Map.empty))) = Some 1"
proof -
  have a: "resolveProject demo_local demo_options = Some ''demo''"
    "resolveProject (demo_local\<lparr>SSH_HOST := None\<rparr>) demo_options = Some ''demo''"
    by (simp_all add: resolveProject_def demo_options_def)
  have b: "truthy (SSH_HOST demo_local)" "truthy (SSH_KEY_PATH demo_local)"
    by (simp_all add: demo_local_def)
  have c: "\<not> connect_ok (healthy\<lparr>connect_ok := False\<rparr>)" by simp
  have "exit_code (fst (deploy healthy (demo_local\<lparr>SSH_HOST := None\<rparr>) demo_options []
      (fresh Map.empty))) = Some 1"
    using a(2) project_name_examples(7) by (simp add: deploy_def)
  then show ?thesis
    using deploy_connect_fails [OF a(1) project_name_examples(7) b c, of "[]" "fresh Map.empty"]
    by (simp add: fresh_def)
qed

theorem C4_connect_failure_witness:
  "exit_code (fst (deploy (healthy\<lparr>connect_ok := False\<rparr>) demo_local demo_options []
      (fresh Map.empty))) \<noteq> Some 1"
  using C4_connect_failure_exits_zero by simp




























section \<open>The git remote resolver\<close>





























end
